theory Spec2Isabelle
  imports Main
begin

section \<open>Environment variable collections: data model\<close>

text \<open>
  The development follows \<^verbatim>\<open>env-variables-server.ts\<close> and the declarations of
  \<^verbatim>\<open>common/env-variables\<close>.

  A JavaScript \<^verbatim>\<open>Map\<close> iterates in insertion order and holds each key once. It is
  modelled as an association list in iteration order: \<^verbatim>\<open>get\<close> is a lookup, \<^verbatim>\<open>set\<close>
  overwrites the value of an existing key where it stands and puts a new key last,
  \<^verbatim>\<open>delete\<close> removes the key.
\<close>

type_synonym ('k, 'v) js_map = "('k \<times> 'v) list"

definition map_get :: "('k, 'v) js_map \<Rightarrow> 'k \<Rightarrow> 'v option" where
  "map_get m k = map_of m k"

fun map_set :: "'k \<Rightarrow> 'v \<Rightarrow> ('k, 'v) js_map \<Rightarrow> ('k, 'v) js_map" where
  "map_set k v [] = [(k, v)]"
| "map_set k v (p # m) = (if fst p = k then (k, v) # m else p # map_set k v m)"

fun map_delete :: "'k \<Rightarrow> ('k, 'v) js_map \<Rightarrow> ('k, 'v) js_map" where
  "map_delete k [] = []"
| "map_delete k (p # m) = (if fst p = k then m else p # map_delete k m)"

definition map_keys :: "('k, 'v) js_map \<Rightarrow> 'k list" where
  "map_keys m = map fst m"

text \<open>\<^verbatim>\<open>new Map(iterable)\<close>: the pairs are set one after the other on an empty map.\<close>

definition new_Map :: "('k \<times> 'v) list \<Rightarrow> ('k, 'v) js_map" where
  "new_Map pairs = foldl (\<lambda>m p. map_set (fst p) (snd p) m) [] pairs"

datatype EnvironmentVariableMutatorType = Replace | Append | Prepend

record EnvironmentVariableMutator =
  mutator_value :: string
  mutator_type :: EnvironmentVariableMutatorType

record ExtensionOwnedEnvironmentVariableMutator = EnvironmentVariableMutator +
  extensionIdentifier :: string

record EnvironmentVariableCollection =
  collection_map :: "(string, EnvironmentVariableMutator) js_map"

record EnvironmentVariableCollectionWithPersistence = EnvironmentVariableCollection +
  persistent :: bool

type_synonym MergedMap = "(string, ExtensionOwnedEnvironmentVariableMutator list) js_map"

section \<open>Merging: the constructor of MergedEnvironmentVariableCollectionImpl\<close>

text \<open>
  One turn of the \<^verbatim>\<open>while\<close> loop, for the pair \<^verbatim>\<open>next.value\<close> of the contributor
  \<^verbatim>\<open>extensionIdentifier\<close>. The entry is an array held by the map and \<^verbatim>\<open>unshift\<close>
  changes it in place; the model stores the new array under the same key, which keeps
  the key's place in the map.
\<close>

definition merge_next ::
  "string \<Rightarrow> MergedMap \<Rightarrow> string \<times> EnvironmentVariableMutator \<Rightarrow> MergedMap" where
  "merge_next extId m nxt =
     (let variable = fst nxt;
          (entry, m1) = (case map_get m variable of
                           None \<Rightarrow> ([], map_set variable [] m)
                         | Some e \<Rightarrow> (e, m))
      in if length entry > 0 \<and> mutator_type (entry ! 0) = Replace then m1
         else let mutator = snd nxt
              in map_set variable
                   (\<lparr>mutator_value = mutator_value mutator,
                     mutator_type = mutator_type mutator,
                     extensionIdentifier = extId\<rparr> # entry) m1)"

text \<open>The \<^verbatim>\<open>while (!next.done)\<close> loop over the entries of one collection.\<close>

fun merge_entries ::
  "string \<Rightarrow> (string, EnvironmentVariableMutator) js_map \<Rightarrow> MergedMap \<Rightarrow> MergedMap" where
  "merge_entries extId [] m = m"
| "merge_entries extId (nxt # it) m = merge_entries extId it (merge_next extId m nxt)"

text \<open>\<^verbatim>\<open>collections.forEach\<close>, started on the map \<^verbatim>\<open>m\<close>.\<close>

fun merge_collections ::
  "(string, 'a EnvironmentVariableCollection_scheme) js_map \<Rightarrow> MergedMap \<Rightarrow> MergedMap" where
  "merge_collections [] m = m"
| "merge_collections (c # collections) m =
     merge_collections collections (merge_entries (fst c) (collection_map (snd c)) m)"

definition MergedEnvironmentVariableCollectionImpl ::
  "(string, 'a EnvironmentVariableCollection_scheme) js_map \<Rightarrow> MergedMap" where
  "MergedEnvironmentVariableCollectionImpl collections = merge_collections collections []"

section \<open>Ordinary objects\<close>

text \<open>
  \<^verbatim>\<open>applyToProcessEnvironment\<close> uses two ordinary objects as dictionaries: the environment
  \<^verbatim>\<open>env\<close> it is given and the table \<^verbatim>\<open>lowerToActualVariableNames\<close> it builds from
  \<^verbatim>\<open>{}\<close>. An ordinary object is the list of its own properties, in the order in which
  \<^verbatim>\<open>Object.keys\<close> enumerates them, over the prototype \<^verbatim>\<open>Object.prototype\<close>.

  What the code depends on and the source does not hold is gathered in a runtime: the
  flag \<^verbatim>\<open>isWindows\<close> imported from \<^verbatim>\<open>common/os\<close>, the function
  \<^verbatim>\<open>String.prototype.toLowerCase\<close>, and the members of \<^verbatim>\<open>Object.prototype\<close>. A member is a
  writable data property or an accessor whose setter ignores a string; both hold an
  object, of which the code only uses the text it turns into when it is concatenated
  with a string or used as a property key.
\<close>

datatype member = Data_member string | Accessor_member string

fun member_text :: "member \<Rightarrow> string" where
  "member_text (Data_member t) = t"
| "member_text (Accessor_member t) = t"

record runtime =
  isWindows :: bool
  toLowerCase :: "string \<Rightarrow> string"
  Object_prototype :: "(string \<times> member) list"

type_synonym 'v object = "(string \<times> 'v) list"

definition Object_keys :: "'v object \<Rightarrow> string list" where
  "Object_keys obj = map fst obj"

definition own_property :: "'v object \<Rightarrow> string \<Rightarrow> 'v option" where
  "own_property obj k = map_of obj k"

text \<open>The result of reading \<^verbatim>\<open>obj[k]\<close>: the value of the own property, else the member
  of the prototype, else \<^verbatim>\<open>undefined\<close>.\<close>

datatype 'v property_read = Own 'v | Inherited string | Undefined

definition obj_get :: "runtime \<Rightarrow> 'v object \<Rightarrow> string \<Rightarrow> 'v property_read" where
  "obj_get rt obj k =
     (case map_of obj k of
        Some v \<Rightarrow> Own v
      | None \<Rightarrow> (case map_of (Object_prototype rt) k of
                   Some mem \<Rightarrow> Inherited (member_text mem)
                 | None \<Rightarrow> Undefined))"

definition is_accessor :: "runtime \<Rightarrow> string \<Rightarrow> bool" where
  "is_accessor rt k =
     (case map_of (Object_prototype rt) k of Some (Accessor_member t) \<Rightarrow> True | _ \<Rightarrow> False)"

text \<open>
  An array index is a canonical numeric string below \<open>2\<^sup>3\<^sup>2 - 1\<close>. \<^verbatim>\<open>Object.keys\<close>
  enumerates the properties named by an array index first, in ascending order, and
  then the others in the order of their creation; a created property takes its place
  in that order.
\<close>

definition digit_value :: "char \<Rightarrow> int option" where
  "digit_value c =
     (let n = (of_char c :: int) in if 48 \<le> n \<and> n \<le> 57 then Some (n - 48) else None)"

fun decimal :: "int \<Rightarrow> string \<Rightarrow> int option" where
  "decimal acc [] = Some acc"
| "decimal acc (c # cs) =
     (case digit_value c of None \<Rightarrow> None | Some d \<Rightarrow> decimal (10 * acc + d) cs)"

definition array_index :: "string \<Rightarrow> int option" where
  "array_index s =
     (if s = [] \<or> (hd s = CHR ''0'' \<and> s \<noteq> ''0'') then None
      else (case decimal 0 s of
              None \<Rightarrow> None
            | Some n \<Rightarrow> if n < 4294967295 then Some n else None))"

fun insert_index :: "int \<Rightarrow> string \<Rightarrow> 'v \<Rightarrow> 'v object \<Rightarrow> 'v object" where
  "insert_index i k v [] = [(k, v)]"
| "insert_index i k v (p # obj) =
     (case array_index (fst p) of
        Some j \<Rightarrow> if j < i then p # insert_index i k v obj else (k, v) # p # obj
      | None \<Rightarrow> (k, v) # p # obj)"

definition create_property :: "string \<Rightarrow> 'v \<Rightarrow> 'v object \<Rightarrow> 'v object" where
  "create_property k v obj =
     (case array_index k of None \<Rightarrow> obj @ [(k, v)] | Some i \<Rightarrow> insert_index i k v obj)"

text \<open>
  The assignment \<^verbatim>\<open>obj[k] = v\<close> of a string \<^verbatim>\<open>v\<close>: an own property is overwritten where
  it stands; otherwise an accessor of the prototype takes the value and ignores it, and
  in every other case the property is created.
\<close>

definition obj_set :: "runtime \<Rightarrow> string \<Rightarrow> 'v \<Rightarrow> 'v object \<Rightarrow> 'v object" where
  "obj_set rt k v obj =
     (if k \<in> set (Object_keys obj) then map_set k v obj
      else if is_accessor rt k then obj
      else create_property k v obj)"

section \<open>Applying a merged collection to an environment\<close>

text \<open>The environment is an object \<^verbatim>\<open>{ [key: string]: string | null }\<close>: the value
  \<^verbatim>\<open>null\<close> is \<open>None\<close>.\<close>

type_synonym ProcessEnv = "string option object"

text \<open>\<^verbatim>\<open>(env[k] || '') + s\<close> starts with the text of what was read: the string of an own
  property, nothing for \<^verbatim>\<open>null\<close>, \<^verbatim>\<open>undefined\<close> and the empty string, and the text
  of an inherited member, which is an object and so not falsy.\<close>

fun or_empty :: "string option property_read \<Rightarrow> string" where
  "or_empty (Own (Some s)) = s"
| "or_empty (Own None) = []"
| "or_empty (Inherited t) = t"
| "or_empty Undefined = []"

text \<open>The body of the \<^verbatim>\<open>switch\<close>, for one mutator.\<close>

definition apply_mutator ::
  "runtime \<Rightarrow> string \<Rightarrow> ProcessEnv \<Rightarrow> 'a EnvironmentVariableMutator_scheme \<Rightarrow> ProcessEnv" where
  "apply_mutator rt actual env mutator =
     (case mutator_type mutator of
        Append \<Rightarrow>
          obj_set rt actual (Some (or_empty (obj_get rt env actual) @ mutator_value mutator)) env
      | Prepend \<Rightarrow>
          obj_set rt actual (Some (mutator_value mutator @ or_empty (obj_get rt env actual))) env
      | Replace \<Rightarrow> obj_set rt actual (Some (mutator_value mutator)) env)"

text \<open>\<^verbatim>\<open>mutators.forEach\<close>.\<close>

fun apply_mutators ::
  "runtime \<Rightarrow> string \<Rightarrow> 'a EnvironmentVariableMutator_scheme list \<Rightarrow> ProcessEnv \<Rightarrow> ProcessEnv" where
  "apply_mutators rt actual [] env = env"
| "apply_mutators rt actual (mutator # mutators) env =
     apply_mutators rt actual mutators (apply_mutator rt actual env mutator)"

text \<open>The table \<^verbatim>\<open>lowerToActualVariableNames\<close>: the object \<^verbatim>\<open>{}\<close>, assigned key by key
  from \<^verbatim>\<open>Object.keys(env)\<close>.\<close>

definition lowerToActualVariableNames :: "runtime \<Rightarrow> ProcessEnv \<Rightarrow> string object" where
  "lowerToActualVariableNames rt env =
     foldl (\<lambda>tbl e. obj_set rt (toLowerCase rt e) e tbl) [] (Object_keys env)"

text \<open>
  \<^verbatim>\<open>isWindows ? lowerToActualVariableNames![variable.toLowerCase()] || variable : variable\<close>,
  as the property key it is then used for. \<^verbatim>\<open>||\<close> falls through to \<^verbatim>\<open>variable\<close> on
  \<^verbatim>\<open>undefined\<close> and on the empty string; an inherited member is kept, and as a key
  it is its text. The table is assigned under the same flag, so it is passed as a
  value that is read only when the flag is set.
\<close>

definition actualVariable :: "runtime \<Rightarrow> string object \<Rightarrow> string \<Rightarrow> string" where
  "actualVariable rt tbl variable =
     (if isWindows rt
      then (case obj_get rt tbl (toLowerCase rt variable) of
              Own e \<Rightarrow> if e = [] then variable else e
            | Inherited t \<Rightarrow> t
            | Undefined \<Rightarrow> variable)
      else variable)"

text \<open>\<^verbatim>\<open>this.map.forEach\<close>, with the table computed before the loop.\<close>

fun apply_entries ::
  "runtime \<Rightarrow> string object \<Rightarrow> MergedMap \<Rightarrow> ProcessEnv \<Rightarrow> ProcessEnv" where
  "apply_entries rt tbl [] env = env"
| "apply_entries rt tbl (p # m) env =
     apply_entries rt tbl m (apply_mutators rt (actualVariable rt tbl (fst p)) (snd p) env)"

definition applyToProcessEnvironment :: "runtime \<Rightarrow> MergedMap \<Rightarrow> ProcessEnv \<Rightarrow> ProcessEnv" where
  "applyToProcessEnvironment rt m env =
     (let tbl = (if isWindows rt then lowerToActualVariableNames rt env else [])
      in apply_entries rt tbl m env)"


section \<open>The registry: EnvVariablesServerImpl\<close>

text \<open>The fields \<^verbatim>\<open>collections\<close> and \<^verbatim>\<open>mergedCollection\<close> of the server.\<close>

record EnvVariablesServerImpl =
  collections :: "(string, EnvironmentVariableCollectionWithPersistence) js_map"
  mergedCollection :: MergedMap

definition resolveMergedCollection :: "EnvVariablesServerImpl \<Rightarrow> MergedMap" where
  "resolveMergedCollection this = MergedEnvironmentVariableCollectionImpl (collections this)"

definition updateCollections :: "EnvVariablesServerImpl \<Rightarrow> EnvVariablesServerImpl" where
  "updateCollections this = this\<lparr>mergedCollection := resolveMergedCollection this\<rparr>"

definition set_collection ::
  "string \<Rightarrow> bool \<Rightarrow> (string \<times> EnvironmentVariableMutator) list \<Rightarrow>
   EnvVariablesServerImpl \<Rightarrow> EnvVariablesServerImpl" where
  "set_collection extId persistent_flag collection this =
     (let translatedCollection = \<lparr>collection_map = new_Map collection, persistent = persistent_flag\<rparr>
      in updateCollections
           (this\<lparr>collections := map_set extId translatedCollection (collections this)\<rparr>))"

definition delete_collection :: "string \<Rightarrow> EnvVariablesServerImpl \<Rightarrow> EnvVariablesServerImpl" where
  "delete_collection extId this =
     updateCollections (this\<lparr>collections := map_delete extId (collections this)\<rparr>)"

text \<open>The state the constructor leaves: no collection, and the merge of none.\<close>

definition new_EnvVariablesServerImpl :: EnvVariablesServerImpl where
  "new_EnvVariablesServerImpl =
     updateCollections \<lparr>collections = [], mergedCollection = []\<rparr>"

section \<open>Specification-level notions\<close>

text \<open>The provenance-tagged mutator that the constructor builds from a contributor's
  identifier and its mutator.\<close>

definition tag ::
  "string \<Rightarrow> EnvironmentVariableMutator \<Rightarrow> ExtensionOwnedEnvironmentVariableMutator" where
  "tag extId mutator =
     \<lparr>mutator_value = mutator_value mutator, mutator_type = mutator_type mutator,
      extensionIdentifier = extId\<rparr>"

text \<open>What one contributor offers for the variable \<open>V\<close>, in the order of its entries,
  and what the whole registry offers, in registry order.\<close>

definition entries_for ::
  "string \<Rightarrow> string \<times> 'a EnvironmentVariableCollection_scheme \<Rightarrow>
   ExtensionOwnedEnvironmentVariableMutator list" where
  "entries_for V c =
     map (\<lambda>p. tag (fst c) (snd p)) (filter (\<lambda>p. fst p = V) (collection_map (snd c)))"

definition contributions ::
  "string \<Rightarrow> (string, 'a EnvironmentVariableCollection_scheme) js_map \<Rightarrow>
   ExtensionOwnedEnvironmentVariableMutator list" where
  "contributions V cs = concat (map (entries_for V) cs)"

text \<open>The same through \<^verbatim>\<open>Map.get\<close>: the tagged mutator of every contributor that has a
  mutator for \<open>V\<close>, in registry order.\<close>

definition mutators_for ::
  "string \<Rightarrow> (string, 'a EnvironmentVariableCollection_scheme) js_map \<Rightarrow>
   ExtensionOwnedEnvironmentVariableMutator list" where
  "mutators_for V cs =
     concat (map (\<lambda>c. case map_get (collection_map (snd c)) V of
                         None \<Rightarrow> []
                       | Some mutator \<Rightarrow> [tag (fst c) mutator]) cs)"

text \<open>A \<^verbatim>\<open>Map\<close> holds each key once: the collections of a registry are well formed when
  their keys are distinct.\<close>

definition wf_collections ::
  "(string, 'a EnvironmentVariableCollection_scheme) js_map \<Rightarrow> bool" where
  "wf_collections cs = list_all (\<lambda>c. distinct (map_keys (collection_map (snd c)))) cs"

text \<open>How one more offered mutator changes the entry of its variable.\<close>

definition entry_add ::
  "ExtensionOwnedEnvironmentVariableMutator list option \<Rightarrow>
   ExtensionOwnedEnvironmentVariableMutator \<Rightarrow>
   ExtensionOwnedEnvironmentVariableMutator list option" where
  "entry_add e x =
     (case e of
        None \<Rightarrow> Some [x]
      | Some l \<Rightarrow> if l \<noteq> [] \<and> mutator_type (hd l) = Replace then Some l else Some (x # l))"

text \<open>The offered mutators up to the first Replace, that one included.\<close>

fun until_replace ::
  "'a EnvironmentVariableMutator_scheme list \<Rightarrow> 'a EnvironmentVariableMutator_scheme list" where
  "until_replace [] = []"
| "until_replace (x # xs) = (if mutator_type x = Replace then [x] else x # until_replace xs)"

definition is_replace :: "'a EnvironmentVariableMutator_scheme \<Rightarrow> bool" where
  "is_replace x = (mutator_type x = Replace)"



text \<open>An assignment to the key \<open>k\<close> takes effect on the object: the key is an own
  property or no accessor of the prototype.\<close>

definition settable :: "runtime \<Rightarrow> 'v object \<Rightarrow> string \<Rightarrow> bool" where
  "settable rt obj k = (k \<in> set (Object_keys obj) \<or> \<not> is_accessor rt k)"

text \<open>The keys of the snapshot whose lower-casing is that of the variable name.\<close>

definition matching_keys :: "runtime \<Rightarrow> ProcessEnv \<Rightarrow> string \<Rightarrow> string list" where
  "matching_keys rt env variable =
     filter (\<lambda>k. toLowerCase rt k = toLowerCase rt variable) (Object_keys env)"


text \<open>The operations of the registry, and the server after a sequence of them.\<close>

datatype registry_op =
  Set string bool "(string \<times> EnvironmentVariableMutator) list"
| Delete string

fun run_op :: "EnvVariablesServerImpl \<Rightarrow> registry_op \<Rightarrow> EnvVariablesServerImpl" where
  "run_op this (Set extId persistent_flag collection) =
     set_collection extId persistent_flag collection this"
| "run_op this (Delete extId) = delete_collection extId this"

definition run_ops :: "registry_op list \<Rightarrow> EnvVariablesServerImpl" where
  "run_ops ops = foldl run_op new_EnvVariablesServerImpl ops"

section \<open>Example registries and snapshots\<close>

definition mutator_of :: "EnvironmentVariableMutatorType \<Rightarrow> string \<Rightarrow> EnvironmentVariableMutator" where
  "mutator_of t v = \<lparr>mutator_value = v, mutator_type = t\<rparr>"

definition collection_of ::
  "(string \<times> EnvironmentVariableMutator) list \<Rightarrow> EnvironmentVariableCollection" where
  "collection_of pairs = \<lparr>collection_map = new_Map pairs\<rparr>"

text \<open>Two contributors that append to the same variable.\<close>

definition registry_appends :: "(string, EnvironmentVariableCollection) js_map" where
  "registry_appends =
     [(''ext1'', collection_of [(''VAR'', mutator_of Append ''1'')]),
      (''ext2'', collection_of [(''VAR'', mutator_of Append ''2'')])]"

text \<open>A Prepend, then a Replace, then an Append, for the same variable.\<close>

definition registry_before_replace :: "(string, EnvironmentVariableCollection) js_map" where
  "registry_before_replace = [(''ext0'', collection_of [(''VAR'', mutator_of Prepend ''0'')])]"

definition contributor_replace :: "string \<times> EnvironmentVariableCollection" where
  "contributor_replace = (''ext1'', collection_of [(''VAR'', mutator_of Replace ''A'')])"

definition registry_after_replace :: "(string, EnvironmentVariableCollection) js_map" where
  "registry_after_replace = [(''ext2'', collection_of [(''VAR'', mutator_of Append ''B'')])]"


text \<open>
  The runtime of the examples: the members of \<^verbatim>\<open>Object.prototype\<close> with the text that
  Node gives them, and the lower-casing of the letters A to Z, which is
  \<^verbatim>\<open>String.prototype.toLowerCase\<close> on the ASCII strings that the examples use.
\<close>

definition native_function :: "string \<Rightarrow> string \<times> member" where
  "native_function name = (name, Data_member (''function '' @ name @ ''() { [native code] }''))"

definition Object_prototype_members :: "(string \<times> member) list" where
  "Object_prototype_members =
     [(''constructor'', Data_member ''function Object() { [native code] }''),
      native_function ''__defineGetter__'',
      native_function ''__defineSetter__'',
      native_function ''hasOwnProperty'',
      native_function ''__lookupGetter__'',
      native_function ''__lookupSetter__'',
      native_function ''isPrototypeOf'',
      native_function ''propertyIsEnumerable'',
      native_function ''toString'',
      native_function ''valueOf'',
      (''__proto__'', Accessor_member ''[object Object]''),
      native_function ''toLocaleString'']"

definition toLowerCase_ascii_char :: "char \<Rightarrow> char" where
  "toLowerCase_ascii_char c =
     (let n = (of_char c :: nat) in if 65 \<le> n \<and> n \<le> 90 then char_of (n + 32) else c)"

definition toLowerCase_ascii :: "string \<Rightarrow> string" where
  "toLowerCase_ascii s = map toLowerCase_ascii_char s"

definition node_runtime :: "bool \<Rightarrow> runtime" where
  "node_runtime w =
     \<lparr>isWindows = w, toLowerCase = toLowerCase_ascii, Object_prototype = Object_prototype_members\<rparr>"

text \<open>A contributor that appends to the variable \<^verbatim>\<open>toString\<close>, one that replaces
  \<^verbatim>\<open>__proto__\<close>, one that appends to \<^verbatim>\<open>constructor\<close>, and one that replaces
  \<^verbatim>\<open>constructor\<close>.\<close>

definition registry_toString :: "(string, EnvironmentVariableCollection) js_map" where
  "registry_toString = [(''ext1'', collection_of [(''toString'', mutator_of Append ''1'')])]"

definition registry_proto :: "(string, EnvironmentVariableCollection) js_map" where
  "registry_proto = [(''ext1'', collection_of [(''__proto__'', mutator_of Replace ''A'')])]"

definition registry_constructor :: "(string, EnvironmentVariableCollection) js_map" where
  "registry_constructor = [(''ext1'', collection_of [(''constructor'', mutator_of Append ''1'')])]"

definition registry_constructor_replace :: "(string, EnvironmentVariableCollection) js_map" where
  "registry_constructor_replace =
     [(''ext1'', collection_of [(''constructor'', mutator_of Replace ''A'')])]"


section \<open>Maps\<close>

lemma map_get_map_set: "map_get (map_set k v m) k' = (if k' = k then Some v else map_get m k')"
  by (induction m) (auto simp: map_get_def)

lemma set_keys_map_set: "set (map_keys (map_set k v m)) = insert k (set (map_keys m))"
  by (induction m) (auto simp: map_keys_def)

lemma distinct_map_set: "distinct (map_keys m) \<Longrightarrow> distinct (map_keys (map_set k v m))"
proof (induction m)
  case Nil
  show ?case by (simp add: map_keys_def)
next
  case (Cons p m)
  have "set (map_keys (map_set k v m)) = insert k (set (map_keys m))"
    by (rule set_keys_map_set)
  with Cons show ?case by (auto simp: map_keys_def)
qed

lemma map_keys_map_set_mem: "k \<in> set (map_keys m) \<Longrightarrow> map_keys (map_set k v m) = map_keys m"
  by (induction m) (auto simp: map_keys_def)

lemma map_keys_map_set_new:
  "k \<notin> set (map_keys m) \<Longrightarrow> map_keys (map_set k v m) = map_keys m @ [k]"
  by (induction m) (auto simp: map_keys_def)

lemma map_delete_absent: "k \<notin> set (map_keys m) \<Longrightarrow> map_delete k m = m"
  by (induction m) (auto simp: map_keys_def)

lemma map_get_None_iff: "map_get m k = None \<longleftrightarrow> k \<notin> set (map_keys m)"
  by (simp add: map_get_def map_keys_def map_of_eq_None_iff)

section \<open>The merged entry of a variable\<close>

lemma entry_add_simps:
  "entry_add None x = Some [x]"
  "entry_add (Some []) x = Some [x]"
  "mutator_type y = Replace \<Longrightarrow> entry_add (Some (y # l)) x = Some (y # l)"
  "mutator_type y \<noteq> Replace \<Longrightarrow> entry_add (Some (y # l)) x = Some (x # y # l)"
  by (simp_all add: entry_add_def)

lemma map_get_merge_next:
  "map_get (merge_next extId m nxt) V =
     (if fst nxt = V then entry_add (map_get m V) (tag extId (snd nxt)) else map_get m V)"
  by (cases "map_get m (fst nxt)")
     (auto simp: merge_next_def Let_def map_get_map_set entry_add_def tag_def hd_conv_nth)

lemma map_get_merge_entries:
  "map_get (merge_entries extId it m) V =
     foldl entry_add (map_get m V)
       (map (\<lambda>p. tag extId (snd p)) (filter (\<lambda>p. fst p = V) it))"
  by (induction it arbitrary: m) (simp_all add: map_get_merge_next)

lemma map_get_merge_collections:
  "map_get (merge_collections cs m) V = foldl entry_add (map_get m V) (contributions V cs)"
  by (induction cs arbitrary: m)
     (simp_all add: map_get_merge_entries contributions_def entries_for_def)

lemma foldl_entry_add_blocked:
  "mutator_type y = Replace \<Longrightarrow> foldl entry_add (Some (y # l)) xs = Some (y # l)"
  by (induction xs) (simp_all add: entry_add_simps)

lemma foldl_entry_add_open:
  "l = [] \<or> mutator_type (hd l) \<noteq> Replace \<Longrightarrow>
   foldl entry_add (Some l) xs = Some (rev (until_replace xs) @ l)"
proof (induction xs arbitrary: l)
  case Nil
  show ?case by simp
next
  case (Cons x xs)
  show ?case
  proof (cases "mutator_type x = Replace")
    case True
    have "foldl entry_add (Some (x # l)) xs = Some (x # l)"
      using True by (simp add: foldl_entry_add_blocked)
    with Cons.prems True show ?thesis by (cases l) (auto simp: entry_add_simps)
  next
    case False
    have "foldl entry_add (Some (x # l)) xs = Some (rev (until_replace xs) @ x # l)"
      using False by (intro Cons.IH) simp
    with Cons.prems False show ?thesis by (cases l) (auto simp: entry_add_simps)
  qed
qed

lemma foldl_entry_add_None:
  "foldl entry_add None xs = (if xs = [] then None else Some (rev (until_replace xs)))"
proof (cases xs)
  case Nil
  then show ?thesis by simp
next
  case (Cons x ys)
  show ?thesis
  proof (cases "mutator_type x = Replace")
    case True
    then show ?thesis using Cons by (simp add: entry_add_simps foldl_entry_add_blocked)
  next
    case False
    then show ?thesis using Cons by (simp add: entry_add_simps foldl_entry_add_open)
  qed
qed

lemma merged_entry:
  "map_get (MergedEnvironmentVariableCollectionImpl cs) V =
     (if contributions V cs = [] then None
      else Some (rev (until_replace (contributions V cs))))"
proof -
  have "map_get ([] :: MergedMap) V = None" by (simp add: map_get_def)
  then have "map_get (MergedEnvironmentVariableCollectionImpl cs) V =
      foldl entry_add None (contributions V cs)"
    by (simp add: MergedEnvironmentVariableCollectionImpl_def map_get_merge_collections)
  then show ?thesis by (simp only: foldl_entry_add_None)
qed

section \<open>What well-formed collections offer\<close>

lemma filter_key_distinct:
  "distinct (map_keys m) \<Longrightarrow>
   filter (\<lambda>p. fst p = V) m = (case map_get m V of None \<Rightarrow> [] | Some x \<Rightarrow> [(V, x)])"
proof (induction m)
  case Nil
  show ?case by (simp add: map_get_def)
next
  case (Cons p m)
  show ?case
  proof (cases "fst p = V")
    case True
    with Cons.prems have "V \<notin> set (map_keys m)" by (simp add: map_keys_def)
    then have "filter (\<lambda>p. fst p = V) m = []"
      by (auto simp: map_keys_def filter_empty_conv)
    with True show ?thesis by (cases p) (simp add: map_get_def)
  next
    case False
    with Cons show ?thesis by (cases p) (simp add: map_get_def map_keys_def)
  qed
qed

lemma entries_for_distinct:
  "distinct (map_keys (collection_map (snd c))) \<Longrightarrow>
   entries_for V c = (case map_get (collection_map (snd c)) V of
                        None \<Rightarrow> [] | Some mutator \<Rightarrow> [tag (fst c) mutator])"
  by (simp add: entries_for_def filter_key_distinct split: option.splits)

lemma contributions_wf: "wf_collections cs \<Longrightarrow> contributions V cs = mutators_for V cs"
  by (induction cs)
     (simp_all add: contributions_def mutators_for_def wf_collections_def entries_for_distinct)

lemma contributions_append:
  "contributions V (cs @ ds) = contributions V cs @ contributions V ds"
  by (simp add: contributions_def)

lemma until_replace_id:
  "\<forall>x \<in> set xs. mutator_type x \<noteq> Replace \<Longrightarrow> until_replace xs = xs"
  by (induction xs) simp_all

lemma until_replace_first:
  "\<forall>x \<in> set xs. mutator_type x \<noteq> Replace \<Longrightarrow> mutator_type r = Replace \<Longrightarrow>
   until_replace (xs @ r # ys) = xs @ [r]"
  by (induction xs) simp_all

lemma until_replace_butlast:
  "\<forall>x \<in> set (butlast (until_replace xs)). mutator_type x \<noteq> Replace"
  by (induction xs) auto

lemma until_replace_closed:
  "\<exists>x \<in> set (until_replace xs). mutator_type x = Replace \<Longrightarrow>
   until_replace (xs @ ys) = until_replace xs"
  by (induction xs) (auto split: if_splits)

lemma until_replace_Nil_iff: "until_replace xs = [] \<longleftrightarrow> xs = []"
  by (cases xs) simp_all

section \<open>The registry after a sequence of operations\<close>

lemma distinct_new_Map: "distinct (map_keys (new_Map pairs))"
proof -
  have "distinct (map_keys m) \<Longrightarrow>
      distinct (map_keys (foldl (\<lambda>m p. map_set (fst p) (snd p) m) m pairs))" for m :: "('a \<times> 'b) list"
    by (induction pairs arbitrary: m) (simp_all add: distinct_map_set)
  from this [of "[]"] show ?thesis by (simp add: new_Map_def map_keys_def)
qed

lemma updateCollections_fields:
  "collections (updateCollections this) = collections this"
  "mergedCollection (updateCollections this) =
     MergedEnvironmentVariableCollectionImpl (collections this)"
  by (simp_all add: updateCollections_def resolveMergedCollection_def)

lemma run_op_consistent:
  "mergedCollection (run_op this op) =
     MergedEnvironmentVariableCollectionImpl (collections (run_op this op))"
  by (cases op) (simp_all add: set_collection_def delete_collection_def Let_def updateCollections_fields)

lemma run_ops_snoc: "run_ops (ops @ [op]) = run_op (run_ops ops) op"
  by (simp add: run_ops_def)

lemma run_ops_consistent:
  "mergedCollection (run_ops ops) =
     MergedEnvironmentVariableCollectionImpl (collections (run_ops ops))"
proof (cases ops rule: rev_cases)
  case Nil
  then show ?thesis by (simp add: run_ops_def new_EnvVariablesServerImpl_def updateCollections_fields)
next
  case (snoc ops' op)
  then show ?thesis by (simp only: run_ops_snoc run_op_consistent)
qed

text \<open>Every registry that the operations build holds well-formed collections.\<close>

lemma list_all_map_set:
  "list_all P m \<Longrightarrow> P (k, v) \<Longrightarrow> list_all P (map_set k v m)"
  by (induction m) simp_all

lemma list_all_map_delete: "list_all P m \<Longrightarrow> list_all P (map_delete k m)"
  by (induction m) simp_all

lemma run_op_wf:
  "wf_collections (collections this) \<Longrightarrow> wf_collections (collections (run_op this op))"
  by (cases op)
     (simp_all add: wf_collections_def set_collection_def delete_collection_def Let_def
        updateCollections_fields list_all_map_set list_all_map_delete distinct_new_Map)

lemma run_ops_wf: "wf_collections (collections (run_ops ops))"
proof (induction ops rule: rev_induct)
  case Nil
  show ?case
    by (simp add: run_ops_def new_EnvVariablesServerImpl_def updateCollections_fields
        wf_collections_def)
next
  case (snoc op ops)
  then show ?case by (simp only: run_ops_snoc run_op_wf)
qed

section \<open>The examples, evaluated\<close>

lemma merged_registry_appends:
  "MergedEnvironmentVariableCollectionImpl registry_appends =
     [(''VAR'', [tag ''ext2'' (mutator_of Append ''2''), tag ''ext1'' (mutator_of Append ''1'')])]"
  by (simp add: MergedEnvironmentVariableCollectionImpl_def registry_appends_def collection_of_def
      new_Map_def merge_next_def map_get_def tag_def mutator_of_def)


lemma merged_registry_replace:
  "MergedEnvironmentVariableCollectionImpl (registry_before_replace @ [contributor_replace]) =
     [(''VAR'', [tag ''ext1'' (mutator_of Replace ''A''), tag ''ext0'' (mutator_of Prepend ''0'')])]"
  by (simp add: MergedEnvironmentVariableCollectionImpl_def registry_before_replace_def
      contributor_replace_def collection_of_def
      new_Map_def merge_next_def map_get_def tag_def mutator_of_def)

section \<open>Reading and assigning properties\<close>


lemma set_fst_map_set: "fst ` set (map_set k v obj) = insert k (fst ` set obj)"
  using set_keys_map_set [of k v obj] by (simp add: map_keys_def)


lemma set_fst_insert_index: "fst ` set (insert_index i k v obj) = insert k (fst ` set obj)"
  by (induction obj) (auto split: option.splits)


lemma set_fst_create_property: "fst ` set (create_property k v obj) = insert k (fst ` set obj)"
  by (cases "array_index k") (simp_all add: create_property_def set_fst_insert_index)


lemma keys_obj_set:
  "set (Object_keys (obj_set rt k v obj)) =
     (if settable rt obj k then insert k (set (Object_keys obj)) else set (Object_keys obj))"
  by (auto simp: obj_set_def settable_def Object_keys_def set_fst_map_set set_fst_create_property)






section \<open>What a key reads as after applying\<close>



lemma keys_apply_mutator:
  "set (Object_keys env) \<subseteq> set (Object_keys (apply_mutator rt K env mutator))"
  by (cases "mutator_type mutator") (auto simp: apply_mutator_def keys_obj_set)







section \<open>The key a variable name resolves to\<close>








section \<open>The examples, evaluated on the runtime of the examples\<close>

lemma toLowerCase_examples:
  "toLowerCase (node_runtime w) ''PATH'' = ''path''"
  "toLowerCase (node_runtime w) ''Path'' = ''path''"
  "toLowerCase (node_runtime w) ''HOME'' = ''home''"
  "toLowerCase (node_runtime w) ''constructor'' = ''constructor''"
  "toLowerCase (node_runtime w) ''function Object() { [native code] }'' =
     ''function object() { [native code] }''"
  by (simp_all add: node_runtime_def) code_simp+

lemma node_runtime_simps:
  "isWindows (node_runtime w) = w"
  "Object_prototype (node_runtime w) = Object_prototype_members"
  by (simp_all add: node_runtime_def)

lemma merged_registry_toString:
  "MergedEnvironmentVariableCollectionImpl registry_toString =
     [(''toString'', [tag ''ext1'' (mutator_of Append ''1'')])]"
  by (simp add: MergedEnvironmentVariableCollectionImpl_def registry_toString_def collection_of_def
      new_Map_def merge_next_def map_get_def tag_def mutator_of_def)

lemma merged_registry_proto:
  "MergedEnvironmentVariableCollectionImpl registry_proto =
     [(''__proto__'', [tag ''ext1'' (mutator_of Replace ''A'')])]"
  by (simp add: MergedEnvironmentVariableCollectionImpl_def registry_proto_def collection_of_def
      new_Map_def merge_next_def map_get_def tag_def mutator_of_def)

lemma merged_registry_constructor:
  "MergedEnvironmentVariableCollectionImpl registry_constructor =
     [(''constructor'', [tag ''ext1'' (mutator_of Append ''1'')])]"
  by (simp add: MergedEnvironmentVariableCollectionImpl_def registry_constructor_def collection_of_def
      new_Map_def merge_next_def map_get_def tag_def mutator_of_def)

lemma merged_registry_constructor_replace:
  "MergedEnvironmentVariableCollectionImpl registry_constructor_replace =
     [(''constructor'', [tag ''ext1'' (mutator_of Replace ''A'')])]"
  by (simp add: MergedEnvironmentVariableCollectionImpl_def registry_constructor_replace_def
      collection_of_def new_Map_def merge_next_def map_get_def tag_def mutator_of_def)


lemma prototype_examples:
  "map_of Object_prototype_members ''toString'' =
     Some (Data_member ''function toString() { [native code] }'')"
  "map_of Object_prototype_members ''constructor'' =
     Some (Data_member ''function Object() { [native code] }'')"
  "map_of Object_prototype_members ''__proto__'' = Some (Accessor_member ''[object Object]'')"
  "map_of Object_prototype_members ''function Object() { [native code] }'' = None"
  "map_of Object_prototype_members ''function object() { [native code] }'' = None"
  "map_of Object_prototype_members ''path'' = None"
  "map_of Object_prototype_members ''home'' = None"
  "map_of Object_prototype_members ''Path'' = None"
  "map_of Object_prototype_members ''PATH'' = None"
  "map_of Object_prototype_members ''HOME'' = None"
  by (simp_all add: Object_prototype_members_def native_function_def)

lemma array_index_examples:
  "array_index ''toString'' = None"
  "array_index ''function Object() { [native code] }'' = None"
  "array_index ''function object() { [native code] }'' = None"
  "array_index ''path'' = None"
  "array_index ''home'' = None"
  "array_index ''Path'' = None"
  "array_index ''PATH'' = None"
  "array_index ''HOME'' = None"
  by (simp_all add: array_index_def digit_value_def)

section \<open>The claims\<close>

text \<open>
  C1. For a registry of well-formed collections and a variable \<open>V\<close> for which no
  contributor has a Replace, the merged entry of \<open>V\<close> is the list of the tagged mutators of
  the contributors that have a mutator for \<open>V\<close>, in reverse registry order: the contributor
  processed last is the head. A variable that no contributor names has no entry.
\<close>

theorem merged_entry_reverse_registry_order:
  assumes "wf_collections cs"
    and "\<forall>x \<in> set (mutators_for V cs). mutator_type x \<noteq> Replace"
  shows "map_get (MergedEnvironmentVariableCollectionImpl cs) V =
           (if mutators_for V cs = [] then None else Some (rev (mutators_for V cs)))"
proof -
  have "contributions V cs = mutators_for V cs"
    using assms(1) by (rule contributions_wf)
  moreover have "until_replace (mutators_for V cs) = mutators_for V cs"
    using assms(2) by (rule until_replace_id)
  ultimately show ?thesis by (simp add: merged_entry)
qed

theorem merged_entry_reverse_registry_order_witness:
  "map_get (MergedEnvironmentVariableCollectionImpl registry_appends) ''VAR'' =
     Some [tag ''ext2'' (mutator_of Append ''2''), tag ''ext1'' (mutator_of Append ''1'')]"
proof -
  have wf: "wf_collections registry_appends"
    by (simp add: wf_collections_def registry_appends_def collection_of_def new_Map_def map_keys_def)
  have m: "mutators_for ''VAR'' registry_appends =
      [tag ''ext1'' (mutator_of Append ''1''), tag ''ext2'' (mutator_of Append ''2'')]"
    by (simp add: mutators_for_def registry_appends_def collection_of_def new_Map_def map_get_def)
  have nr: "\<forall>x \<in> set (mutators_for ''VAR'' registry_appends). mutator_type x \<noteq> Replace"
    unfolding m by (simp add: tag_def mutator_of_def)
  from merged_entry_reverse_registry_order [OF wf nr] show ?thesis
    unfolding m by simp
qed

text \<open>
  C2. When the entry of \<open>V\<close> has a Replace as its head, one turn of the loop for a
  mutator of \<open>V\<close> leaves the merged map as it is. For a registry \<open>pre @ c # post\<close> in which
  \<open>c\<close> is the first contributor with a Replace for \<open>V\<close>, the entry is that Replace followed
  by the mutators of \<open>pre\<close> in reverse order: the contributors before \<open>c\<close> stay in the
  entry, as they are after \<open>pre @ [c]\<close>, and those after \<open>c\<close> add nothing.
\<close>

theorem replace_blocks_later_contributors:
  assumes "wf_collections (pre @ c # post)"
    and "\<forall>x \<in> set (mutators_for V pre). mutator_type x \<noteq> Replace"
    and "map_get (collection_map (snd c)) V = Some r"
    and "mutator_type r = Replace"
  shows "map_get (MergedEnvironmentVariableCollectionImpl (pre @ c # post)) V =
           Some (tag (fst c) r # rev (mutators_for V pre))
         \<and> map_get (MergedEnvironmentVariableCollectionImpl (pre @ [c])) V =
           Some (tag (fst c) r # rev (mutators_for V pre))
         \<and> (\<forall>extId m mutator y l.
               map_get m V = Some (y # l) \<and> mutator_type y = Replace \<longrightarrow>
               merge_next extId m (V, mutator) = m)"
proof -
  have wf: "wf_collections pre" "wf_collections [c]" "wf_collections post"
    using assms(1) by (simp_all add: wf_collections_def)
  have tagged: "mutator_type (tag (fst c) r) = Replace"
    using assms(4) by (simp add: tag_def)
  have c: "contributions V [c] = [tag (fst c) r]"
    using wf(2) assms(3) by (simp add: contributions_wf mutators_for_def)
  have pre: "contributions V pre = mutators_for V pre"
    using wf(1) by (rule contributions_wf)
  have split: "contributions V (pre @ c # rest) =
      mutators_for V pre @ tag (fst c) r # contributions V rest" for rest
    using contributions_append [of V pre "[c] @ rest"] contributions_append [of V "[c]" rest]
    by (simp add: c pre)
  have "until_replace (contributions V (pre @ c # rest)) = mutators_for V pre @ [tag (fst c) r]"
    for rest
    unfolding split using assms(2) tagged by (rule until_replace_first)
  then have "map_get (MergedEnvironmentVariableCollectionImpl (pre @ c # rest)) V =
      Some (tag (fst c) r # rev (mutators_for V pre))" for rest
    by (simp add: merged_entry split)
  moreover have "merge_next extId m (V, mutator) = m"
    if "map_get m V = Some (y # l)" "mutator_type y = Replace" for extId m mutator y l
    using that by (simp add: merge_next_def)
  ultimately show ?thesis by blast
qed

theorem replace_blocks_later_contributors_witness:
  "map_get (MergedEnvironmentVariableCollectionImpl
       (registry_before_replace @ contributor_replace # registry_after_replace)) ''VAR'' =
     Some [tag ''ext1'' (mutator_of Replace ''A''), tag ''ext0'' (mutator_of Prepend ''0'')]
   \<and> merge_next ''ext2''
       (MergedEnvironmentVariableCollectionImpl (registry_before_replace @ [contributor_replace]))
       (''VAR'', mutator_of Append ''B'') =
     MergedEnvironmentVariableCollectionImpl (registry_before_replace @ [contributor_replace])"
proof -
  have wf: "wf_collections (registry_before_replace @ contributor_replace # registry_after_replace)"
    by (simp add: wf_collections_def registry_before_replace_def contributor_replace_def
        registry_after_replace_def collection_of_def new_Map_def map_keys_def)
  have m: "mutators_for ''VAR'' registry_before_replace = [tag ''ext0'' (mutator_of Prepend ''0'')]"
    by (simp add: mutators_for_def registry_before_replace_def collection_of_def new_Map_def
        map_get_def)
  have nr: "\<forall>x \<in> set (mutators_for ''VAR'' registry_before_replace). mutator_type x \<noteq> Replace"
    unfolding m by (simp add: tag_def mutator_of_def)
  have r: "map_get (collection_map (snd contributor_replace)) ''VAR'' = Some (mutator_of Replace ''A'')"
    by (simp add: contributor_replace_def collection_of_def new_Map_def map_get_def)
  have t: "mutator_type (mutator_of Replace ''A'') = Replace"
    by (simp add: mutator_of_def)
  have head: "map_get (MergedEnvironmentVariableCollectionImpl
        (registry_before_replace @ [contributor_replace])) ''VAR'' =
      Some (tag ''ext1'' (mutator_of Replace ''A'') # [tag ''ext0'' (mutator_of Prepend ''0'')])
      \<and> mutator_type (tag ''ext1'' (mutator_of Replace ''A'')) = Replace"
    by (simp add: merged_registry_replace map_get_def tag_def mutator_of_def)
  note inst = replace_blocks_later_contributors [OF wf nr r t]
  from inst have "map_get (MergedEnvironmentVariableCollectionImpl
       (registry_before_replace @ contributor_replace # registry_after_replace)) ''VAR'' =
     Some [tag ''ext1'' (mutator_of Replace ''A''), tag ''ext0'' (mutator_of Prepend ''0'')]"
    unfolding m by (simp add: contributor_replace_def)
  moreover from inst head have "merge_next ''ext2''
       (MergedEnvironmentVariableCollectionImpl (registry_before_replace @ [contributor_replace]))
       (''VAR'', mutator_of Append ''B'') =
     MergedEnvironmentVariableCollectionImpl (registry_before_replace @ [contributor_replace])"
    by blast
  ultimately show ?thesis by simp
qed

text \<open>
  C3. On a snapshot without the key \<^verbatim>\<open>toString\<close>, an Append of \<^verbatim>\<open>1\<close> to the variable
  \<^verbatim>\<open>toString\<close> does not give \<^verbatim>\<open>1\<close>: the absent key is not read as the empty string, the
  code reads the member \<^verbatim>\<open>toString\<close> of \<^verbatim>\<open>Object.prototype\<close> and writes its text followed
  by \<^verbatim>\<open>1\<close>. A Replace for the variable \<^verbatim>\<open>__proto__\<close> does not set the key: the snapshot
  stays empty.
\<close>

theorem append_reads_inherited_member:
  "own_property ([] :: ProcessEnv) ''toString'' = None
   \<and> applyToProcessEnvironment (node_runtime False)
       (MergedEnvironmentVariableCollectionImpl registry_toString) [] =
     [(''toString'', Some ''function toString() { [native code] }1'')]
   \<and> applyToProcessEnvironment (node_runtime False)
       (MergedEnvironmentVariableCollectionImpl registry_proto) [] = []"
  by (simp add: merged_registry_toString merged_registry_proto applyToProcessEnvironment_def
      actualVariable_def node_runtime_simps apply_mutator_def tag_def mutator_of_def obj_get_def
      obj_set_def Object_keys_def is_accessor_def prototype_examples create_property_def
      array_index_examples own_property_def)

text \<open>
  C4. In every entry of a merged collection no mutator after the head is a Replace: the
  entry holds at most one Replace, and only at index 0. Once an entry holds a Replace,
  processing further contributors leaves the entry as it is.
\<close>

theorem replace_only_at_head:
  assumes "map_get (MergedEnvironmentVariableCollectionImpl cs) V = Some e"
  shows "(\<forall>x \<in> set (tl e). \<not> is_replace x)
         \<and> length (filter is_replace e) \<le> 1
         \<and> (\<forall>i < length e. is_replace (e ! i) \<longrightarrow> i = 0)
         \<and> ((\<exists>x \<in> set e. is_replace x) \<longrightarrow>
              map_get (MergedEnvironmentVariableCollectionImpl (cs @ later)) V = Some e)"
proof -
  let ?xs = "contributions V cs"
  have ne: "?xs \<noteq> []" and e: "e = rev (until_replace ?xs)"
    using assms by (auto simp: merged_entry split: if_splits)
  have "tl e = rev (butlast (until_replace ?xs))"
    by (simp add: e butlast_rev [symmetric] del: butlast_rev) (metis butlast_rev rev_rev_ident)
  then have tail: "\<forall>x \<in> set (tl e). \<not> is_replace x"
    using until_replace_butlast [of ?xs] by (simp add: is_replace_def)
  have "e \<noteq> []" using ne by (simp add: e until_replace_Nil_iff)
  then obtain h t where ht: "e = h # t" by (cases e) auto
  have "filter is_replace t = []" using tail ht by (simp add: filter_empty_conv)
  then have count: "length (filter is_replace e) \<le> 1" by (simp add: ht)
  have idx: "i = 0" if "i < length e" "is_replace (e ! i)" for i
  proof (rule ccontr)
    assume "i \<noteq> 0"
    then obtain j where "i = Suc j" by (cases i) auto
    with that ht have "t ! j \<in> set t" "is_replace (t ! j)" by auto
    with tail ht show False by auto
  qed
  have ext: "map_get (MergedEnvironmentVariableCollectionImpl (cs @ later)) V = Some e"
    if "\<exists>x \<in> set e. is_replace x"
  proof -
    have "\<exists>x \<in> set (until_replace ?xs). mutator_type x = Replace"
      using that by (simp add: e is_replace_def)
    then have "until_replace (?xs @ contributions V later) = until_replace ?xs"
      by (rule until_replace_closed)
    with ne show ?thesis by (simp add: merged_entry contributions_append e)
  qed
  from tail count idx ext show ?thesis by blast
qed

theorem replace_only_at_head_witness:
  "length (filter is_replace
      [tag ''ext1'' (mutator_of Replace ''A''), tag ''ext0'' (mutator_of Prepend ''0'')]) \<le> 1
   \<and> map_get (MergedEnvironmentVariableCollectionImpl
        ((registry_before_replace @ [contributor_replace]) @ registry_after_replace)) ''VAR'' =
      Some [tag ''ext1'' (mutator_of Replace ''A''), tag ''ext0'' (mutator_of Prepend ''0'')]"
proof -
  have e: "map_get (MergedEnvironmentVariableCollectionImpl
        (registry_before_replace @ [contributor_replace])) ''VAR'' =
      Some [tag ''ext1'' (mutator_of Replace ''A''), tag ''ext0'' (mutator_of Prepend ''0'')]"
    by (simp add: merged_registry_replace map_get_def)
  have r: "\<exists>x \<in> set [tag ''ext1'' (mutator_of Replace ''A''), tag ''ext0'' (mutator_of Prepend ''0'')].
      is_replace x"
    by (simp add: is_replace_def tag_def mutator_of_def)
  from replace_only_at_head [OF e, of registry_after_replace] r show ?thesis by blast
qed

text \<open>
  C5. On a case-insensitive platform and a snapshot in which no key has the lower-casing
  of \<^verbatim>\<open>constructor\<close>, the variable \<^verbatim>\<open>constructor\<close> does not resolve to itself: the lookup in
  the table finds the member \<^verbatim>\<open>constructor\<close> of \<^verbatim>\<open>Object.prototype\<close>, and the mutators are
  applied to the key that is the text of that member.
\<close>

theorem constructor_resolves_to_member:
  "matching_keys (node_runtime True) [] ''constructor'' = []
   \<and> actualVariable (node_runtime True) (lowerToActualVariableNames (node_runtime True) [])
       ''constructor'' = ''function Object() { [native code] }''
   \<and> applyToProcessEnvironment (node_runtime True)
       (MergedEnvironmentVariableCollectionImpl registry_constructor) [] =
     [(''function Object() { [native code] }'', Some ''1'')]"
  by (simp add: merged_registry_constructor applyToProcessEnvironment_def
      lowerToActualVariableNames_def matching_keys_def
      actualVariable_def node_runtime_simps toLowerCase_examples apply_mutator_def tag_def
      mutator_of_def obj_get_def obj_set_def Object_keys_def is_accessor_def prototype_examples
      create_property_def array_index_examples Let_def)

text \<open>
  C6. After set and after delete the stored merged collection is the merge of the
  collections the registry then holds, the registry being the old one with the
  contributor set or deleted; the result does not depend on the merged collection
  stored before.
\<close>

theorem merged_recomputed_wholesale:
  "mergedCollection (set_collection extId p collection this) =
     MergedEnvironmentVariableCollectionImpl (collections (set_collection extId p collection this))
   \<and> mergedCollection (delete_collection extId this) =
     MergedEnvironmentVariableCollectionImpl (collections (delete_collection extId this))
   \<and> collections (set_collection extId p collection this) =
     map_set extId \<lparr>collection_map = new_Map collection, persistent = p\<rparr> (collections this)
   \<and> collections (delete_collection extId this) = map_delete extId (collections this)
   \<and> set_collection extId p collection (this\<lparr>mergedCollection := old\<rparr>) =
     set_collection extId p collection this
   \<and> delete_collection extId (this\<lparr>mergedCollection := old\<rparr>) = delete_collection extId this"
  by (simp add: set_collection_def delete_collection_def Let_def updateCollections_def
      resolveMergedCollection_def)

text \<open>
  C7. In a server reached by any sequence of set and delete operations, deleting a
  contributor that the registry does not hold leaves the server as it is: the same
  registry and the same merged collection.
\<close>

theorem delete_absent_noop:
  assumes "extId \<notin> set (map_keys (collections (run_ops ops)))"
  shows "delete_collection extId (run_ops ops) = run_ops ops"
proof -
  have "map_delete extId (collections (run_ops ops)) = collections (run_ops ops)"
    using assms by (rule map_delete_absent)
  then show ?thesis
    by (simp add: delete_collection_def updateCollections_def resolveMergedCollection_def
        run_ops_consistent [symmetric])
qed

theorem delete_absent_noop_witness:
  "delete_collection ''ext2'' (run_ops [Set ''ext1'' False [(''VAR'', mutator_of Append ''1'')]]) =
     run_ops [Set ''ext1'' False [(''VAR'', mutator_of Append ''1'')]]
   \<and> collections (run_ops [Set ''ext1'' False [(''VAR'', mutator_of Append ''1'')]]) =
     [(''ext1'', \<lparr>collection_map = [(''VAR'', mutator_of Append ''1'')], persistent = False\<rparr>)]"
proof -
  have c: "collections (run_ops [Set ''ext1'' False [(''VAR'', mutator_of Append ''1'')]]) =
      [(''ext1'', \<lparr>collection_map = [(''VAR'', mutator_of Append ''1'')], persistent = False\<rparr>)]"
    by (simp add: run_ops_def set_collection_def new_EnvVariablesServerImpl_def
        updateCollections_def new_Map_def Let_def)
  then have "''ext2'' \<notin> set (map_keys
      (collections (run_ops [Set ''ext1'' False [(''VAR'', mutator_of Append ''1'')]])))"
    by (simp add: map_keys_def)
  from delete_absent_noop [OF this] c show ?thesis by simp
qed

text \<open>
  C8. The merged collection is a function of the contents of the registry alone: it does
  not depend on the merged collection stored before, recomputing does not change the
  registry, and recomputing a second time gives the same server again.
\<close>

theorem merge_deterministic:
  "resolveMergedCollection (updateCollections this) = resolveMergedCollection this
   \<and> updateCollections (updateCollections this) = updateCollections this
   \<and> resolveMergedCollection (this\<lparr>mergedCollection := old\<rparr>) = resolveMergedCollection this
   \<and> resolveMergedCollection this = MergedEnvironmentVariableCollectionImpl (collections this)"
  by (simp add: updateCollections_def resolveMergedCollection_def)




text \<open>
  C10. On a case-insensitive platform a Replace for the variable \<^verbatim>\<open>constructor\<close> changes a
  key of the snapshot that this name does not resolve to, neither directly nor by its
  lower-casing: the key that is the text of the member \<^verbatim>\<open>constructor\<close> of
  \<^verbatim>\<open>Object.prototype\<close> goes from \<^verbatim>\<open>x\<close> to \<^verbatim>\<open>A\<close>, and on the empty snapshot that key
  is created.
\<close>

theorem member_key_modified:
  "matching_keys (node_runtime True) [(''function Object() { [native code] }'', Some ''x'')]
       ''constructor'' = []
   \<and> applyToProcessEnvironment (node_runtime True)
       (MergedEnvironmentVariableCollectionImpl registry_constructor_replace)
       [(''function Object() { [native code] }'', Some ''x'')] =
     [(''function Object() { [native code] }'', Some ''A'')]
   \<and> applyToProcessEnvironment (node_runtime True)
       (MergedEnvironmentVariableCollectionImpl registry_constructor_replace) [] =
     [(''function Object() { [native code] }'', Some ''A'')]"
  by (simp add: merged_registry_constructor_replace applyToProcessEnvironment_def
      lowerToActualVariableNames_def matching_keys_def
      actualVariable_def node_runtime_simps toLowerCase_examples apply_mutator_def tag_def
      mutator_of_def obj_get_def obj_set_def Object_keys_def is_accessor_def prototype_examples
      create_property_def array_index_examples Let_def)


end
